theory Spec2Isabelle
  imports Complex_Main "HOL-Library.AList" "HOL-Library.Char_ord" "HOL-Library.List_Lexorder"
begin

section \<open>Library primitives used by the pages and components\<close>

text \<open>
  The source calls a few lodash, d3 and JavaScript built-ins. They are written here by
  their documented behaviour on the values the program passes them; all numbers that
  occur are integers.

  \<^item> \<open>_.uniq\<close> keeps the first occurrence of each element, in order of occurrence.
  \<^item> \<open>_.sumBy\<close> adds the values of a function over an array (0 for the empty array).
  \<^item> \<open>Array.prototype.sort\<close> with a comparator is stable; with the comparator
    \<open>(a, b) => key(a) - key(b)\<close> it is the stable sort by ascending \<open>key\<close>, which
    \<open>sort_key\<close> computes.
  \<^item> \<open>_.groupBy\<close> collects the elements under the string form of their key in a plain
    object. \<open>_.map\<close> and \<open>_.forEach\<close> over that object visit its own keys in
    JavaScript's property order: keys that are array indices (canonical numerals below
    \<open>2^32 - 1\<close>) first, ascending, then the other keys in insertion order.
  \<^item> A plain object keyed by data strings is an association list of its own properties.
    Reading a key the program has written itself is \<open>map_of\<close>; reading an arbitrary key
    (\<open>object_get\<close>, used for \<open>treemapInteractiveData[selectedCause]\<close>) also sees the
    properties every plain object inherits from \<open>Object.prototype\<close>. Writing the special key
    \<open>__proto__\<close> is not modelled.
  \<^item> \<open>d3.range(start, stop, step)\<close> is \<open>start + i * step\<close> for
    \<open>0 \<le> i < max 0 (ceil ((stop - start) / step))\<close>; it is only called with step 10.
  \<^item> \<open>d3.min\<close>, \<open>d3.max\<close>, \<open>d3.extent\<close> skip missing values and give
    \<open>undefined\<close> (here \<open>None\<close>) when no value is left.
\<close>

fun uniq :: "'a list \<Rightarrow> 'a list" where
  "uniq [] = []"
| "uniq (x # xs) = x # uniq (filter (\<lambda>y. y \<noteq> x) xs)"

definition sumBy :: "'a list \<Rightarrow> ('a \<Rightarrow> int) \<Rightarrow> int" where
  "sumBy xs f = sum_list (map f xs)"

definition is_digit :: "char \<Rightarrow> bool" where
  "is_digit c = (48 \<le> (of_char c :: int) \<and> (of_char c :: int) \<le> 57)"

definition numeral_value :: "string \<Rightarrow> int" where
  "numeral_value s = foldl (\<lambda>a c. 10 * a + ((of_char c :: int) - 48)) 0 s"

definition array_index :: "string \<Rightarrow> int option" where
  "array_index s =
     (if s \<noteq> [] \<and> list_all is_digit s \<and> (s = ''0'' \<or> hd s \<noteq> CHR ''0'')
         \<and> numeral_value s < 4294967295
      then Some (numeral_value s) else None)"

definition year_index :: "int \<Rightarrow> int option" where
  "year_index y = (if 0 \<le> y \<and> y < 4294967295 then Some y else None)"

definition js_key_order :: "('k \<Rightarrow> int option) \<Rightarrow> 'k list \<Rightarrow> 'k list" where
  "js_key_order idx ks =
     sort_key (\<lambda>k. the (idx k)) (filter (\<lambda>k. idx k \<noteq> None) ks) @ filter (\<lambda>k. idx k = None) ks"

definition groupBy :: "('k \<Rightarrow> int option) \<Rightarrow> ('a \<Rightarrow> 'k) \<Rightarrow> 'a list \<Rightarrow> ('k \<times> 'a list) list" where
  "groupBy idx f xs =
     map (\<lambda>k. (k, filter (\<lambda>x. f x = k) xs)) (js_key_order idx (uniq (map f xs)))"

definition d3_range :: "int \<Rightarrow> int \<Rightarrow> int \<Rightarrow> int list" where
  "d3_range start stop step =
     (let n = max 0 (- ((start - stop) div step))
      in map (\<lambda>i. start + int i * step) [0..<nat n])"

definition d3_min :: "int list \<Rightarrow> int option" where
  "d3_min xs = (case xs of [] \<Rightarrow> None | x # ys \<Rightarrow> Some (fold min ys x))"

definition d3_max :: "int list \<Rightarrow> int option" where
  "d3_max xs = (case xs of [] \<Rightarrow> None | x # ys \<Rightarrow> Some (fold max ys x))"

definition d3_extent :: "int option list \<Rightarrow> (int \<times> int) option" where
  "d3_extent vs =
     (case List.map_filter id vs of
        [] \<Rightarrow> None
      | x # ys \<Rightarrow> Some (fold min ys x, fold max ys x))"

section \<open>The page: aggregation in getStaticProps (src/pages/index.js)\<close>

text \<open>
  A cleaned row of \<open>cleanedData\<close> (index.js lines 34-40). \<open>survivors\<close> is the string
  \<open>'Yes'\<close> or \<open>'No'\<close> in the source, a Boolean here; \<open>survivors_key\<close> gives the string
  back where it is used as a key or a name. \<open>year\<close> and \<open>fatalities\<close> are integers.
  Parsing and cleaning of the CSV text happen before and are not part of the model.
\<close>

record crash =
  year :: int
  cause :: string
  location :: string
  fatalities :: int
  survivors :: bool

definition survivors_key :: "crash \<Rightarrow> string" where
  "survivors_key r = (if survivors r then ''Yes'' else ''No'')"

text \<open>index.js line 44: \<open>causes = _.uniq(cleanedData.map(row => row.cause))\<close>.\<close>

definition causes :: "crash list \<Rightarrow> string list" where
  "causes cleanedData = uniq (map cause cleanedData)"

text \<open>
  One element of \<open>stackedAreaData\<close>: \<open>{ year: parseInt(year, 10), ...causeCounts }\<close>,
  an object with the property \<open>year\<close> and one property per cause. The record keeps the
  value of \<open>year\<close> in \<open>row_year\<close> and the other properties in \<open>counts\<close>; property
  access \<open>d[key]\<close> is \<open>property\<close>.
\<close>

record yearRow =
  row_year :: int
  counts :: "(string \<times> int) list"

definition property :: "yearRow \<Rightarrow> string \<Rightarrow> int option" where
  "property d key = (if key = ''year'' then Some (row_year d) else map_of (counts d) key)"

text \<open>
  index.js lines 51-55: every cause starts at 0, then each cause of the year's group gets
  the size of its group.
\<close>

definition causeCounts :: "string list \<Rightarrow> crash list \<Rightarrow> (string \<times> int) list" where
  "causeCounts cs yearGroup =
     fold (\<lambda>(c, grp) cc. AList.update c (int (length grp)) cc)
       (groupBy array_index cause yearGroup)
       (map (\<lambda>c. (c, 0)) cs)"

text \<open>
  index.js line 56: the spread of \<open>causeCounts\<close> comes after \<open>year\<close>, so a cause that is
  literally named \<open>year\<close> overwrites the year of the row with its count.
\<close>

definition stackedAreaData :: "crash list \<Rightarrow> yearRow list" where
  "stackedAreaData cleanedData =
     map (\<lambda>(y, yearGroup).
            (let cc = causeCounts (causes cleanedData) yearGroup
             in \<lparr>row_year = (case map_of cc ''year'' of None \<Rightarrow> y | Some n \<Rightarrow> n),
                 counts = cc\<rparr>))
       (groupBy year_index year cleanedData)"

text \<open>
  The hierarchy objects handed to the treemap: \<open>{ name, children }\<close> for inner nodes,
  \<open>{ name, crashes, fatalities }\<close> for the survivor buckets. A missing property is
  \<open>None\<close>.
\<close>

datatype hnode =
  HNode (name: string) (crashes: "int option") (node_fatalities: "int option")
    (children: "hnode list")

definition survivorsGroup :: "crash list \<Rightarrow> hnode list" where
  "survivorsGroup grp =
     map (\<lambda>(s, g). HNode s (Some (int (length g))) (Some (sumBy g fatalities)) [])
       (groupBy array_index survivors_key grp)"

definition treemapDefaultData :: "crash list \<Rightarrow> hnode list" where
  "treemapDefaultData cleanedData =
     map (\<lambda>(c, causeGroup). HNode c None None (survivorsGroup causeGroup))
       (groupBy array_index cause cleanedData)"

text \<open>
  \<open>treemapInteractiveData\<close> is an object keyed by cause (\<open>_.keyBy\<close>); each entry holds
  the \<open>locations\<close> array (lines 78-91).
\<close>

definition locations :: "crash list \<Rightarrow> hnode list" where
  "locations causeGroup =
     map (\<lambda>(l, locGroup). HNode l None None (survivorsGroup locGroup))
       (groupBy array_index location causeGroup)"

definition treemapInteractiveData :: "crash list \<Rightarrow> (string \<times> hnode list) list" where
  "treemapInteractiveData cleanedData =
     map (\<lambda>(c, causeGroup). (c, locations causeGroup)) (groupBy array_index cause cleanedData)"

record props =
  props_stackedAreaData :: "yearRow list"
  props_treemapDefaultData :: "hnode list"
  props_treemapInteractiveData :: "(string \<times> hnode list) list"
  props_causes :: "string list"

definition getStaticProps :: "crash list \<Rightarrow> props" where
  "getStaticProps cleanedData =
     \<lparr>props_stackedAreaData = stackedAreaData cleanedData,
      props_treemapDefaultData = treemapDefaultData cleanedData,
      props_treemapInteractiveData = treemapInteractiveData cleanedData,
      props_causes = causes cleanedData\<rparr>"

section \<open>The page: what Home shows in the treemap container\<close>

text \<open>
  index.js lines 115-120 and 157-169. \<open>selectedCause\<close> is \<open>null\<close> (\<open>None\<close>) or a
  string; the tests \<open>selectedCause && ...\<close> treat the empty string like \<open>null\<close>.
  The page shows either the paragraph "No location data available for cause: ..." or
  the treemap of \<open>treemapData.data\<close> under \<open>treemapData.title\<close>.
\<close>

datatype treemap_container =
  NoLocationData string
| TreemapOf string hnode

definition selected :: "string option \<Rightarrow> string option" where
  "selected selectedCause =
     (case selectedCause of None \<Rightarrow> None | Some c \<Rightarrow> (if c = [] then None else Some c))"

text \<open>
  \<open>treemapInteractiveData[selectedCause]\<close> (index.js lines 117, 118 and 158) reads a plain
  object. An own property wins. Otherwise a name that \<open>Object.prototype\<close> defines gives
  the inherited value: a function, or the prototype itself for \<open>__proto__\<close>; it is truthy
  and has no property \<open>locations\<close>. Any other name gives \<open>undefined\<close>.
\<close>

definition object_prototype_names :: "string list" where
  "object_prototype_names =
     [''constructor'', ''__defineGetter__'', ''__defineSetter__'', ''hasOwnProperty'',
      ''__lookupGetter__'', ''__lookupSetter__'', ''isPrototypeOf'', ''propertyIsEnumerable'',
      ''toString'', ''valueOf'', ''__proto__'', ''toLocaleString'']"

datatype 'a js_property = Own 'a | Inherited | Undefined

definition object_get :: "(string \<times> 'a) list \<Rightarrow> string \<Rightarrow> 'a js_property" where
  "object_get obj key =
     (case map_of obj key of
        Some v \<Rightarrow> Own v
      | None \<Rightarrow> (if key \<in> set object_prototype_names then Inherited else Undefined))"

text \<open>
  Lines 115-120. The detail branch is taken when \<open>selectedCause\<close> and the property are both
  truthy; its children are \<open>treemapInteractiveData[selectedCause].locations || []\<close>, the
  empty array for an inherited value.
\<close>

definition treemapData :: "props \<Rightarrow> string option \<Rightarrow> string \<times> hnode" where
  "treemapData p selectedCause =
     (case selected selectedCause of
        None \<Rightarrow> (''Crashes by Cause'', HNode ''Root'' None None (props_treemapDefaultData p))
      | Some c \<Rightarrow>
          (''Crash Locations for Cause: '' @ c,
           (case object_get (props_treemapInteractiveData p) c of
              Own locs \<Rightarrow> HNode ''Root'' None None locs
            | Inherited \<Rightarrow> HNode ''Root'' None None []
            | Undefined \<Rightarrow> HNode ''Root'' None None (props_treemapDefaultData p))))"

text \<open>
  Lines 157-169. The paragraph is shown when \<open>selectedCause\<close> is truthy and the property is
  not: \<open>selectedCause && !treemapInteractiveData[selectedCause]\<close>.
\<close>

definition Home :: "props \<Rightarrow> string option \<Rightarrow> treemap_container" where
  "Home p selectedCause =
     (case selected selectedCause of
        None \<Rightarrow> TreemapOf (fst (treemapData p selectedCause)) (snd (treemapData p selectedCause))
      | Some c \<Rightarrow>
          (case object_get (props_treemapInteractiveData p) c of
             Undefined \<Rightarrow> NoLocationData c
           | _ \<Rightarrow> TreemapOf (fst (treemapData p selectedCause))
                    (snd (treemapData p selectedCause))))"

section \<open>The Treemap component: hierarchy, sum and sort\<close>

text \<open>
  Treemap lines 13-15:
  \<^verbatim>\<open>d3.hierarchy(data).sum(d => d.crashes || 0).sort((a, b) => b.value - a.value)\<close>.
  A d3 node carries its datum, its value and its children. \<open>sum\<close> sets every node's value
  to its own \<open>crashes || 0\<close> plus the values of its children; \<open>sort\<close> visits the nodes
  in pre-order and sorts each node's children array with the comparator.
\<close>

datatype dnode =
  DNode (ddata: hnode) (dvalue: int) (dchildren: "dnode list")

definition crashes_or0 :: "hnode \<Rightarrow> int" where
  "crashes_or0 d = (case crashes d of None \<Rightarrow> 0 | Some k \<Rightarrow> k)"

fun hierarchy_sum :: "hnode \<Rightarrow> dnode" where
  "hierarchy_sum (HNode n c f cs) =
     (let kids = map hierarchy_sum cs
      in DNode (HNode n c f cs) (crashes_or0 (HNode n c f cs) + sum_list (map dvalue kids)) kids)"

fun hierarchy_sort :: "dnode \<Rightarrow> dnode" where
  "hierarchy_sort (DNode d v cs) =
     DNode d v (map hierarchy_sort (sort_key (\<lambda>k. - dvalue k) cs))"

fun leaves :: "dnode \<Rightarrow> dnode list" where
  "leaves (DNode d v cs) = (if cs = [] then [DNode d v cs] else concat (map leaves cs))"

text \<open>\<open>root.descendants()\<close> (Treemap line 99): the nodes in pre-order.\<close>

fun descendants :: "dnode \<Rightarrow> dnode list" where
  "descendants (DNode d v cs) = DNode d v cs # concat (map descendants cs)"

definition Treemap_root :: "hnode \<Rightarrow> dnode" where
  "Treemap_root data = hierarchy_sort (hierarchy_sum data)"

text \<open>Treemap line 24: \<open>d3.extent(root.leaves(), d => d.data.fatalities)\<close>.\<close>

definition fatalityExtent :: "dnode \<Rightarrow> (int \<times> int) option" where
  "fatalityExtent rt = d3_extent (map (\<lambda>l. node_fatalities (ddata l)) (leaves rt))"

text \<open>
  Modelled from the spec: \<open>colorFor(value, domain)\<close>, the position of a value in the
  colour domain. The source obtains it from \<open>d3.scaleSequential(...).domain(fatalityExtent)\<close>
  (Treemap line 25), whose code is not part of the repository. The spec (4.5): linear
  interpolation over \<open>[min, max]\<close>, and the fixed midpoint 0.5 when \<open>min = max\<close>.
  \<open>js_div\<close> is the quotient when it is a position at all: dividing by 0 gives no number.
\<close>

definition js_div :: "real \<Rightarrow> real \<Rightarrow> real option" where
  "js_div a b = (if b = 0 then None else Some (a / b))"

definition colorFor :: "real \<Rightarrow> real \<times> real \<Rightarrow> real option" where
  "colorFor v domn =
     (if fst domn = snd domn then Some (1 / 2) else js_div (v - fst domn) (snd domn - fst domn))"

text \<open>Treemap line 36: the fill of a leaf is \<open>color(d.data.fatalities)\<close>.\<close>

definition Treemap_fill :: "dnode \<Rightarrow> dnode \<Rightarrow> real option" where
  "Treemap_fill rt leaf =
     (case (fatalityExtent rt, node_fatalities (ddata leaf)) of
        (Some (lo, hi), Some v) \<Rightarrow> colorFor (of_int v) (of_int lo, of_int hi)
      | _ \<Rightarrow> None)"

section \<open>The StackedAreaChart component\<close>

text \<open>\<open>d[cause] || 0\<close> (StackedAreaChart lines 227 and 310).\<close>

definition count_or0 :: "yearRow \<Rightarrow> string \<Rightarrow> int" where
  "count_or0 d c = (case property d c of None \<Rightarrow> 0 | Some n \<Rightarrow> n)"

text \<open>
  Lines 225-230: the causes with their totals, sorted by \<open>(a, b) => b.total - a.total\<close>.
\<close>

definition causeTotals :: "string list \<Rightarrow> yearRow list \<Rightarrow> (string \<times> int) list" where
  "causeTotals cs data =
     sort_key (\<lambda>p. - snd p) (map (\<lambda>c. (c, sumBy data (\<lambda>d. count_or0 d c))) cs)"

definition sortedCauses :: "string list \<Rightarrow> yearRow list \<Rightarrow> string list" where
  "sortedCauses cs data = map fst (causeTotals cs data)"

text \<open>Line 233: \<open>data.sort((a, b) => a.year - b.year)\<close> sorts the property in place.\<close>

definition sort_data :: "yearRow list \<Rightarrow> yearRow list" where
  "sort_data data = sort_key row_year data"

text \<open>
  Modelled from the spec: \<open>stack(points, categoryOrder)\<close>. The source calls
  \<open>d3.stack().keys(sortedCauses)\<close> (lines 235-236), whose code is not part of the
  repository. The spec (4.2): for each x-value the bands are built by walking the category
  order and accumulating, \<open>y0\<close> of the first band is 0, \<open>y0_k = y1_{k-1}\<close> and
  \<open>y1_k = y0_k + count(category_k, year)\<close>, with 0 for a missing category.
\<close>

record band =
  category :: string
  band_y0 :: int
  band_y1 :: int

record point =
  point_x :: int
  bands :: "band list"

fun bands_from :: "int \<Rightarrow> yearRow \<Rightarrow> string list \<Rightarrow> band list" where
  "bands_from acc d [] = []"
| "bands_from acc d (c # cs) =
     \<lparr>category = c, band_y0 = acc, band_y1 = acc + count_or0 d c\<rparr>
       # bands_from (acc + count_or0 d c) d cs"

definition stack :: "yearRow list \<Rightarrow> string list \<Rightarrow> point list" where
  "stack data categoryOrder =
     map (\<lambda>d. \<lparr>point_x = row_year d, bands = bands_from 0 d categoryOrder\<rparr>) data"

text \<open>
  Lines 239-241: the x-domain is \<open>[d3.min(data, d => d.year), d3.max(data, d => d.year)]\<close>;
  it has no numbers when \<open>data\<close> is empty.
\<close>

definition xDomain :: "yearRow list \<Rightarrow> (int \<times> int) option" where
  "xDomain data =
     (case (d3_min (map row_year data), d3_max (map row_year data)) of
        (Some lo, Some hi) \<Rightarrow> Some (lo, hi)
      | _ \<Rightarrow> None)"

text \<open>
  Line 257:
  \<^verbatim>\<open>d3.range(Math.ceil(xScale.domain()[0] / 10) * 10, xScale.domain()[1] + 10, 10)\<close>.
  On integers \<open>Math.ceil(a / 10) * 10\<close> is \<open>- ((- a) div 10) * 10\<close>, written
  \<open>ceil10 a\<close>. With no numbers in the domain \<open>d3.range\<close> returns the empty array.
\<close>

definition ceil10 :: "int \<Rightarrow> int" where
  "ceil10 a = - ((- a) div 10) * 10"

definition decadeTicks :: "(int \<times> int) option \<Rightarrow> int list" where
  "decadeTicks domn =
     (case domn of
        None \<Rightarrow> []
      | Some (lo, hi) \<Rightarrow> d3_range (ceil10 lo) (hi + 10) 10)"

text \<open>Lines 277-291: the hover ranges between consecutive ticks, then the last range.\<close>

record decadeRange =
  range_start :: int
  range_end :: int

definition decadeRanges :: "int list \<Rightarrow> (int \<times> int) option \<Rightarrow> decadeRange list" where
  "decadeRanges ticks domn =
     map (\<lambda>i. \<lparr>range_start = ticks ! i, range_end = ticks ! (i + 1)\<rparr>) [0..<length ticks - 1]
     @ (case domn of
          Some (lo, hi) \<Rightarrow>
            (if length ticks > 0
             then [\<lparr>range_start = ticks ! (length ticks - 1), range_end = hi\<rparr>] else [])
        | None \<Rightarrow> [])"



text \<open>
  Line 247: \<open>d3.scaleOrdinal(d3.schemeCategory10).domain(sortedCauses)\<close> gives a cause of
  the domain the colour at its position in the domain, modulo the ten colours of the
  scheme. \<open>first_index\<close> is the position of the first occurrence.
\<close>

definition first_index :: "'a list \<Rightarrow> 'a \<Rightarrow> nat" where
  "first_index xs a = length (takeWhile (\<lambda>y. y \<noteq> a) xs)"

definition color :: "string list \<Rightarrow> string \<Rightarrow> nat" where
  "color colorDomain c = first_index colorDomain c mod 10"

text \<open>
  What one run of the effect draws, as far as the claims go: the stacked series with the
  keys they were built from, one area per key with its fill (lines 346-351), the hover
  ranges, and the legend entries (lines 373-387: a rectangle at \<open>y = i * 20\<close> filled with
  \<open>color(cause)\<close> and the text \<open>cause\<close>). The run also leaves the \<open>data\<close> array sorted
  by year; it is returned as the second component.
\<close>

record legendEntry =
  legend_y :: int
  legend_fill :: nat
  legend_text :: string

record chart =
  stack_keys :: "string list"
  series :: "point list"
  area_fills :: "(string \<times> nat) list"
  hover_ranges :: "decadeRange list"
  legend :: "legendEntry list"

definition StackedAreaChart :: "yearRow list \<Rightarrow> string list \<Rightarrow> chart \<times> yearRow list" where
  "StackedAreaChart data cs =
     (let keys = sortedCauses cs data;
          data' = sort_data data;
          domn = xDomain data'
      in (\<lparr>stack_keys = keys,
           series = stack data' keys,
           area_fills = map (\<lambda>k. (k, color keys k)) keys,
           hover_ranges = decadeRanges (decadeTicks domn) domn,
           legend = map (\<lambda>(i, c). \<lparr>legend_y = int i * 20, legend_fill = color keys c,
                                     legend_text = c\<rparr>) (enumerate 0 keys)\<rparr>,
          data'))"

section \<open>Tooltip placement (Treemap and StackedAreaChart mouseover handlers)\<close>

text \<open>
  Both components place their tooltip with the same statements
  (Treemap lines 54-63, StackedAreaChart lines 318-327):
  \<^verbatim>\<open>
  let x = event.clientX - svgRect.left + 10;
  let y = event.clientY - svgRect.top - tooltipHeight - 10;
  if (x + tooltipWidth > width) { x = event.clientX - svgRect.left - tooltipWidth - 10; }
  if (y < 0) { y = event.clientY - svgRect.top + 10; }
  \<close>
  The pointer position relative to the SVG is \<open>px = clientX - svgRect.left\<close>,
  \<open>py = clientY - svgRect.top\<close>; \<open>width\<close> is the chart's width property.
  Lengths are pixels, real numbers.
\<close>

record tooltip_event =
  px :: real
  py :: real
  tooltipWidth :: real
  tooltipHeight :: real

definition Treemap_tooltip :: "real \<Rightarrow> tooltip_event \<Rightarrow> real \<times> real" where
  "Treemap_tooltip width e =
     (let x = px e + 10;
          y = py e - tooltipHeight e - 10;
          x = (if x + tooltipWidth e > width then px e - tooltipWidth e - 10 else x);
          y = (if y < 0 then py e + 10 else y)
      in (x, y))"

definition StackedAreaChart_tooltip :: "real \<Rightarrow> tooltip_event \<Rightarrow> real \<times> real" where
  "StackedAreaChart_tooltip width e =
     (let x = px e + 10;
          y = py e - tooltipHeight e - 10;
          x = (if x + tooltipWidth e > width then px e - tooltipWidth e - 10 else x);
          y = (if y < 0 then py e + 10 else y)
      in (x, y))"

section \<open>Notions used to state the properties\<close>



text \<open>The sum of the leaf counts (\<open>crashes\<close>) of a laid-out hierarchy.\<close>

definition leaf_crashes :: "dnode \<Rightarrow> int" where
  "leaf_crashes rt = (\<Sum>l\<leftarrow>leaves rt. crashes_or0 (ddata l))"

text \<open>
  The child order of the specification (4.3): by value descending, ties by name. Names are
  compared as character lists, lexicographically.
\<close>

definition value_then_name :: "dnode list \<Rightarrow> bool" where
  "value_then_name cs =
     sorted_wrt (\<lambda>a b. dvalue b < dvalue a \<or>
                   (dvalue a = dvalue b \<and> name (ddata a) \<le> name (ddata b))) cs"

text \<open>The number of decades between the first decade tick and the last one.\<close>

definition nticks :: "int \<Rightarrow> int \<Rightarrow> nat" where
  "nticks lo hi = nat ((ceil10 hi - ceil10 lo) div 10)"

section \<open>Example data\<close>

text \<open>
  Five cleaned records over the years 1953 to 1987, and three records whose causes all
  have the same count.
\<close>

definition example_records :: "crash list" where
  "example_records =
     [\<lparr>year = 1953, cause = ''B'', location = ''X'', fatalities = 5, survivors = False\<rparr>,
      \<lparr>year = 1987, cause = ''A'', location = ''Y'', fatalities = 0, survivors = True\<rparr>,
      \<lparr>year = 1970, cause = ''C'', location = ''12'', fatalities = 3, survivors = False\<rparr>,
      \<lparr>year = 1970, cause = ''B'', location = ''7'', fatalities = 3, survivors = True\<rparr>,
      \<lparr>year = 1970, cause = ''A'', location = ''X'', fatalities = 3, survivors = True\<rparr>]"

definition example_ties :: "crash list" where
  "example_ties =
     [\<lparr>year = 1953, cause = ''B'', location = ''X'', fatalities = 5, survivors = False\<rparr>,
      \<lparr>year = 1987, cause = ''A'', location = ''Y'', fatalities = 0, survivors = True\<rparr>,
      \<lparr>year = 1970, cause = ''C'', location = ''Z'', fatalities = 3, survivors = False\<rparr>]"

text \<open>
  The chart of the example records, and the aggregate treemaps of both examples (no cause
  selected).
\<close>

definition example_chart :: "chart \<times> yearRow list" where
  "example_chart = StackedAreaChart (stackedAreaData example_records) (causes example_records)"

definition example_root :: dnode where
  "example_root = Treemap_root (snd (treemapData (getStaticProps example_records) None))"

definition example_ties_root :: dnode where
  "example_ties_root = Treemap_root (snd (treemapData (getStaticProps example_ties) None))"

section \<open>Facts about the library primitives\<close>

subsection \<open>uniq, key order and groupBy\<close>

lemma set_uniq [simp]: "set (uniq xs) = set xs"
  by (induction xs rule: uniq.induct) auto

lemma distinct_uniq [simp]: "distinct (uniq xs)"
  by (induction xs rule: uniq.induct) auto

lemma set_js_key_order [simp]: "set (js_key_order idx ks) = set ks"
  by (auto simp: js_key_order_def)

lemma distinct_js_key_order [simp]: "distinct ks \<Longrightarrow> distinct (js_key_order idx ks)"
  by (auto simp: js_key_order_def)

lemma groupBy_keys: "map fst (groupBy idx f xs) = js_key_order idx (uniq (map f xs))"
  by (simp add: groupBy_def comp_def)

lemma distinct_groupBy_keys: "distinct (map fst (groupBy idx f xs))"
  by (simp add: groupBy_keys)

lemma set_groupBy_keys: "fst ` set (groupBy idx f xs) = f ` set xs"
  using groupBy_keys [of idx f xs] by (metis set_map set_js_key_order set_uniq)

lemma groupBy_member:
  "(k, g) \<in> set (groupBy idx f xs) \<longleftrightarrow> k \<in> f ` set xs \<and> g = filter (\<lambda>x. f x = k) xs"
  by (auto simp: groupBy_def)

lemma map_of_groupBy:
  "map_of (groupBy idx f xs) k =
     (if k \<in> f ` set xs then Some (filter (\<lambda>x. f x = k) xs) else None)"
proof (cases "k \<in> f ` set xs")
  case True
  then have "(k, filter (\<lambda>x. f x = k) xs) \<in> set (groupBy idx f xs)"
    by (simp add: groupBy_member)
  with distinct_groupBy_keys [of idx f xs] True show ?thesis
    by simp
next
  case False
  then have "k \<notin> fst ` set (groupBy idx f xs)" by (simp add: set_groupBy_keys)
  with False show ?thesis by (simp add: map_of_eq_None_iff)
qed

lemma sum_list_delta0:
  "a \<notin> set ks \<Longrightarrow> (\<Sum>k\<leftarrow>ks. if a = k then (v::int) else 0) = 0"
  by (induction ks) auto

lemma sum_list_delta:
  "distinct ks \<Longrightarrow> a \<in> set ks \<Longrightarrow> (\<Sum>k\<leftarrow>ks. if a = k then (v::int) else 0) = v"
  by (induction ks) (auto simp: sum_list_delta0)

lemma sum_list_partition:
  fixes h :: "'a \<Rightarrow> int"
  assumes "distinct ks" "f ` set xs \<subseteq> set ks"
  shows "(\<Sum>k\<leftarrow>ks. \<Sum>x\<leftarrow>filter (\<lambda>x. f x = k) xs. h x) = (\<Sum>x\<leftarrow>xs. h x)"
  using assms(2)
proof (induction xs)
  case Nil
  then show ?case by simp
next
  case (Cons x xs)
  have "(\<Sum>k\<leftarrow>ks. \<Sum>y\<leftarrow>filter (\<lambda>y. f y = k) (x # xs). h y)
      = (\<Sum>k\<leftarrow>ks. (if f x = k then h x else 0) + (\<Sum>y\<leftarrow>filter (\<lambda>y. f y = k) xs. h y))"
    by (rule arg_cong [where f = sum_list]) (rule map_cong, auto)
  also have "\<dots> = (\<Sum>k\<leftarrow>ks. if f x = k then h x else 0)
      + (\<Sum>k\<leftarrow>ks. \<Sum>y\<leftarrow>filter (\<lambda>y. f y = k) xs. h y)"
    by (simp add: sum_list_addf)
  also have "\<dots> = h x + (\<Sum>y\<leftarrow>xs. h y)"
    using Cons assms(1) by (simp add: sum_list_delta)
  finally show ?case by simp
qed

lemma groupBy_sum:
  "(\<Sum>(k, g)\<leftarrow>groupBy idx f xs. sumBy g h) = sumBy xs h"
proof -
  have "(\<Sum>(k, g)\<leftarrow>groupBy idx f xs. sumBy g h)
      = (\<Sum>k\<leftarrow>js_key_order idx (uniq (map f xs)). \<Sum>x\<leftarrow>filter (\<lambda>x. f x = k) xs. h x)"
    by (simp add: groupBy_def sumBy_def comp_def)
  also have "\<dots> = (\<Sum>x\<leftarrow>xs. h x)"
    by (rule sum_list_partition) auto
  finally show ?thesis by (simp add: sumBy_def)
qed

lemma groupBy_length:
  "(\<Sum>(k, g)\<leftarrow>groupBy idx f xs. int (length g)) = int (length xs)"
  using groupBy_sum [where h = "\<lambda>_. 1" and xs = xs and f = f and idx = idx]
  by (simp add: sumBy_def sum_list_triv)

subsection \<open>Sums are invariant under sorting\<close>

lemma sum_list_insort_key:
  fixes F :: "'a \<Rightarrow> int"
  shows "sum_list (map F (insort_key k x xs)) = F x + sum_list (map F xs)"
  by (induction xs) auto

lemma sum_list_sort_key:
  fixes F :: "'a \<Rightarrow> int"
  shows "sum_list (map F (sort_key k xs)) = sum_list (map F xs)"
  by (induction xs) (auto simp: sum_list_insort_key)

lemma sum_list_map_concat:
  fixes F :: "'a \<Rightarrow> int"
  shows "sum_list (map F (concat xss)) = (\<Sum>xs\<leftarrow>xss. sum_list (map F xs))"
  by (induction xss) auto

subsection \<open>The stable sort keeps ties in their input order\<close>

lemma first_index_Nil [simp]: "first_index [] a = 0"
  by (simp add: first_index_def)

lemma first_index_Cons [simp]:
  "first_index (x # xs) a = (if a = x then 0 else Suc (first_index xs a))"
  by (auto simp: first_index_def)









section \<open>Facts about the aggregation\<close>

subsection \<open>Per-year counts\<close>







subsection \<open>Leaf counts of the hierarchies\<close>

lemma leaf_crashes_node:
  "cs \<noteq> [] \<Longrightarrow> leaf_crashes (DNode d v cs) = (\<Sum>c\<leftarrow>cs. leaf_crashes c)"
  by (simp add: leaf_crashes_def sum_list_map_concat comp_def)

lemma leaf_crashes_leaf: "leaf_crashes (DNode d v []) = crashes_or0 d"
  by (simp add: leaf_crashes_def)

lemma leaf_crashes_sort: "leaf_crashes (hierarchy_sort t) = leaf_crashes t"
proof (induction t)
  case (DNode d v cs)
  show ?case
  proof (cases "cs = []")
    case True
    then show ?thesis by simp
  next
    case False
    then have ne: "map hierarchy_sort (sort_key (\<lambda>k. - dvalue k) cs) \<noteq> []"
      by (metis length_0_conv length_map length_sort)
    have "leaf_crashes (hierarchy_sort (DNode d v cs))
        = (\<Sum>c\<leftarrow>sort_key (\<lambda>k. - dvalue k) cs. leaf_crashes (hierarchy_sort c))"
      using ne by (simp add: leaf_crashes_node comp_def)
    also have "\<dots> = (\<Sum>c\<leftarrow>cs. leaf_crashes (hierarchy_sort c))"
      by (rule sum_list_sort_key)
    also have "\<dots> = (\<Sum>c\<leftarrow>cs. leaf_crashes c)"
      using DNode.IH by (intro arg_cong [where f = sum_list] map_cong) auto
    finally show ?thesis using False by (simp add: leaf_crashes_node)
  qed
qed

lemma dvalue_sort [simp]: "dvalue (hierarchy_sort t) = dvalue t"
  by (cases t) simp

lemma survivorsGroup_nonempty: "g \<noteq> [] \<Longrightarrow> survivorsGroup g \<noteq> []"
proof -
  assume "g \<noteq> []"
  then have "survivors_key ` set g \<noteq> {}" by simp
  then have "fst ` set (groupBy array_index survivors_key g) \<noteq> {}"
    by (simp add: set_groupBy_keys)
  then show ?thesis by (auto simp: survivorsGroup_def)
qed

lemma survivorsGroup_sum:
  "(\<Sum>h\<leftarrow>survivorsGroup g. leaf_crashes (hierarchy_sum h)) = int (length g)"
proof -
  have "(\<Sum>h\<leftarrow>survivorsGroup g. leaf_crashes (hierarchy_sum h))
      = (\<Sum>(s, sg)\<leftarrow>groupBy array_index survivors_key g. int (length sg))"
    unfolding survivorsGroup_def map_map
    by (intro arg_cong [where f = sum_list] map_cong)
       (auto simp: leaf_crashes_leaf crashes_or0_def)
  then show ?thesis by (simp add: groupBy_length)
qed

lemma survivorsGroup_value:
  "(\<Sum>h\<leftarrow>survivorsGroup g. dvalue (hierarchy_sum h)) = int (length g)"
proof -
  have "(\<Sum>h\<leftarrow>survivorsGroup g. dvalue (hierarchy_sum h))
      = (\<Sum>(s, sg)\<leftarrow>groupBy array_index survivors_key g. int (length sg))"
    unfolding survivorsGroup_def map_map
    by (intro arg_cong [where f = sum_list] map_cong)
       (auto simp: crashes_or0_def)
  then show ?thesis by (simp add: groupBy_length)
qed

lemma group_node_crashes:
  "g \<noteq> [] \<Longrightarrow> leaf_crashes (hierarchy_sum (HNode n None None (survivorsGroup g))) = int (length g)"
  using survivorsGroup_nonempty [of g]
  by (simp add: leaf_crashes_node comp_def survivorsGroup_sum)

lemma group_node_value:
  "dvalue (hierarchy_sum (HNode n None None (survivorsGroup g))) = int (length g)"
  by (simp add: comp_def survivorsGroup_value crashes_or0_def)

lemma locations_sum:
  "(\<Sum>h\<leftarrow>locations g. leaf_crashes (hierarchy_sum h)) = int (length g)"
proof -
  have "(\<Sum>h\<leftarrow>locations g. leaf_crashes (hierarchy_sum h))
      = (\<Sum>(l, lg)\<leftarrow>groupBy array_index location g. int (length lg))"
    unfolding locations_def map_map
  proof (intro arg_cong [where f = sum_list] map_cong refl)
    fix p assume "p \<in> set (groupBy array_index location g)"
    moreover obtain l lg where p: "p = (l, lg)" by (cases p)
    ultimately have "lg = filter (\<lambda>x. location x = l) g" "l \<in> location ` set g"
      by (auto simp: groupBy_member)
    then have "lg \<noteq> []" by (auto simp: filter_empty_conv)
    then show "((\<lambda>h. leaf_crashes (hierarchy_sum h)) \<circ>
          (\<lambda>(l, locGroup). HNode l None None (survivorsGroup locGroup))) p
        = (case p of (l, lg) \<Rightarrow> int (length lg))"
      using p by (simp add: group_node_crashes del: hierarchy_sum.simps)
  qed
  then show ?thesis by (simp add: groupBy_length)
qed

lemma locations_value:
  "(\<Sum>h\<leftarrow>locations g. dvalue (hierarchy_sum h)) = int (length g)"
proof -
  have "(\<Sum>h\<leftarrow>locations g. dvalue (hierarchy_sum h))
      = (\<Sum>(l, lg)\<leftarrow>groupBy array_index location g. int (length lg))"
    unfolding locations_def map_map
    by (intro arg_cong [where f = sum_list] map_cong refl)
       (auto simp: group_node_value simp del: hierarchy_sum.simps)
  then show ?thesis by (simp add: groupBy_length)
qed

lemma locations_nonempty: "g \<noteq> [] \<Longrightarrow> locations g \<noteq> []"
proof -
  assume "g \<noteq> []"
  then have "location ` set g \<noteq> {}" by simp
  then have "fst ` set (groupBy array_index location g) \<noteq> {}"
    by (simp add: set_groupBy_keys)
  then show ?thesis by (auto simp: locations_def)
qed

lemma map_of_treemapInteractiveData:
  "map_of (treemapInteractiveData recs) c =
     (if c \<in> cause ` set recs then Some (locations (filter (\<lambda>r. cause r = c) recs)) else None)"
proof -
  have "treemapInteractiveData recs
      = map (\<lambda>(c, g). (c, locations g)) (groupBy array_index cause recs)"
    by (simp add: treemapInteractiveData_def locations_def)
  then have "map_of (treemapInteractiveData recs) c
      = map_option locations (map_of (groupBy array_index cause recs) c)"
    by (simp add: map_of_map)
  then show ?thesis by (simp add: map_of_groupBy)
qed

lemma object_get_treemapInteractiveData:
  "object_get (treemapInteractiveData recs) c =
     (if filter (\<lambda>r. cause r = c) recs \<noteq> [] then Own (locations (filter (\<lambda>r. cause r = c) recs))
      else if c \<in> set object_prototype_names then Inherited else Undefined)"
proof -
  have "c \<in> cause ` set recs \<longleftrightarrow> filter (\<lambda>r. cause r = c) recs \<noteq> []"
    by (auto simp: filter_empty_conv)
  then show ?thesis
    by (simp add: object_get_def map_of_treemapInteractiveData)
qed

section \<open>Facts about the stacked bands and the category order\<close>

lemma bands_from_categories [simp]: "map category (bands_from acc d cs) = cs"
  by (induction cs arbitrary: acc) auto













section \<open>Facts about the hierarchy sort\<close>

lemma ddata_sort [simp]: "ddata (hierarchy_sort t) = ddata t"
  by (cases t) simp

lemma dchildren_sort:
  "dchildren (hierarchy_sort t) = map hierarchy_sort (sort_key (\<lambda>k. - dvalue k) (dchildren t))"
  by (cases t) simp

lemma children_sorted: "sorted_wrt (\<lambda>a b. dvalue b \<le> dvalue a) (dchildren (hierarchy_sort t))"
proof -
  have "sorted (map (\<lambda>k. - dvalue k) (sort_key (\<lambda>k. - dvalue k) (dchildren t)))"
    by (rule sorted_sort_key)
  then have "sorted_wrt (\<lambda>a b. dvalue b \<le> dvalue a) (sort_key (\<lambda>k. - dvalue k) (dchildren t))"
    by (simp add: sorted_map)
  then show ?thesis by (simp add: dchildren_sort sorted_wrt_map)
qed

lemma children_stable:
  "filter (\<lambda>c. dvalue c = v) (dchildren (hierarchy_sort t))
     = map hierarchy_sort (filter (\<lambda>c. dvalue c = v) (dchildren t))"
proof -
  have "filter (\<lambda>c. - dvalue c = - v) (sort_key (\<lambda>k. - dvalue k) (dchildren t))
      = filter (\<lambda>c. - dvalue c = - v) (dchildren t)"
    by (rule sort_key_stable)
  then show ?thesis by (simp add: dchildren_sort filter_map comp_def)
qed

lemma set_descendants:
  "set (descendants t) = insert t (\<Union>c\<in>set (dchildren t). set (descendants c))"
  by (cases t) simp

lemma descendants_sort:
  "set (descendants (hierarchy_sort t)) = hierarchy_sort ` set (descendants t)"
proof (induction t)
  case (DNode d v cs)
  have "set (descendants (hierarchy_sort (DNode d v cs)))
      = insert (hierarchy_sort (DNode d v cs))
          (\<Union>c\<in>set cs. set (descendants (hierarchy_sort c)))"
    by (subst set_descendants) (simp add: dchildren_sort)
  also have "(\<Union>c\<in>set cs. set (descendants (hierarchy_sort c)))
      = (\<Union>c\<in>set cs. hierarchy_sort ` set (descendants c))"
    using DNode.IH by simp
  also have "insert (hierarchy_sort (DNode d v cs)) \<dots>
      = hierarchy_sort ` set (descendants (DNode d v cs))"
    by (subst (2) set_descendants) (simp add: image_UN)
  finally show ?case .
qed

section \<open>Facts about the decade ticks and hover ranges\<close>

lemma ceil10_alt: "ceil10 a = a + (- a) mod 10"
proof -
  have "(- a) div 10 * 10 = - a - (- a) mod 10" by (simp add: minus_mod_eq_div_mult)
  then show ?thesis by (simp add: ceil10_def)
qed

lemma ceil10_props: "ceil10 a mod 10 = 0" "a \<le> ceil10 a" "ceil10 a < a + 10"
  by (simp add: ceil10_def, simp_all add: ceil10_alt)

lemma ceil10_mono: "a \<le> b \<Longrightarrow> ceil10 a \<le> ceil10 b"
  by (simp add: ceil10_def zdiv_mono1)

lemma nticks_last:
  assumes "lo \<le> hi"
  shows "ceil10 lo + int (nticks lo hi) * 10 = ceil10 hi"
proof -
  have "10 dvd ceil10 hi - ceil10 lo"
    using ceil10_props(1) [of lo] ceil10_props(1) [of hi] by (simp add: mod_eq_0_iff_dvd)
  then have "(ceil10 hi - ceil10 lo) div 10 * 10 = ceil10 hi - ceil10 lo"
    by (rule dvd_div_mult_self)
  moreover have "0 \<le> (ceil10 hi - ceil10 lo) div 10"
    using ceil10_mono [OF assms] by simp
  ultimately show ?thesis by (simp add: nticks_def)
qed

lemma range_count:
  fixes s L hi :: int
  assumes "s mod 10 = 0" "L mod 10 = 0" "hi \<le> L" "L < hi + 10" "s \<le> L"
  shows "max 0 (- ((s - (hi + 10)) div 10)) = (L - s) div 10 + 1"
proof -
  from assms(1,2) obtain p q where s: "s = 10 * p" and L: "L = 10 * q"
    by (auto simp: mod_eq_0_iff_dvd elim!: dvdE)
  define r where "r = L - hi"
  have r: "0 \<le> r" "r < 10" using assms(3,4) by (simp_all add: r_def)
  have "s - (hi + 10) = 10 * (p - q - 1) + r" by (simp add: s L r_def)
  then have 1: "(s - (hi + 10)) div 10 = p - q - 1" using r by (rule int_div_pos_eq)
  have "L - s = 10 * (q - p) + 0" by (simp add: s L)
  then have 2: "(L - s) div 10 = q - p" by (rule int_div_pos_eq) simp_all
  have "p \<le> q" using assms(5) by (simp add: s L)
  with 1 2 show ?thesis by simp
qed

lemma decadeTicks_eq:
  assumes "lo \<le> hi"
  shows "decadeTicks (Some (lo, hi))
           = map (\<lambda>i. ceil10 lo + int i * 10) [0..<Suc (nticks lo hi)]"
proof -
  have "max 0 (- ((ceil10 lo - (hi + 10)) div 10)) = (ceil10 hi - ceil10 lo) div 10 + 1"
    by (rule range_count) (simp_all add: ceil10_props ceil10_mono assms)
  moreover have "0 \<le> (ceil10 hi - ceil10 lo) div 10"
    using ceil10_mono [OF assms] by simp
  ultimately have "nat (max 0 (- ((ceil10 lo - (hi + 10)) div 10))) = Suc (nticks lo hi)"
    by (simp add: nticks_def nat_add_distrib)
  then show ?thesis
    by (simp only: decadeTicks_def d3_range_def Let_def option.case prod.case)
qed

lemma decadeRanges_eq:
  assumes "lo \<le> hi"
  shows "decadeRanges (decadeTicks (Some (lo, hi))) (Some (lo, hi))
           = map (\<lambda>i. \<lparr>range_start = ceil10 lo + int i * 10,
                         range_end = ceil10 lo + int i * 10 + 10\<rparr>) [0..<nticks lo hi]
             @ [\<lparr>range_start = ceil10 hi, range_end = hi\<rparr>]"
proof -
  let ?n = "nticks lo hi"
  let ?ts = "map (\<lambda>i. ceil10 lo + int i * 10) [0..<Suc ?n]"
  have len: "length ?ts = Suc ?n" by simp
  have nth: "?ts ! i = ceil10 lo + int i * 10" if "i \<le> ?n" for i
    using that by (simp del: upt_Suc)
  have "map (\<lambda>i. \<lparr>range_start = ?ts ! i, range_end = ?ts ! (i + 1)\<rparr>) [0..<?n]
      = map (\<lambda>i. \<lparr>range_start = ceil10 lo + int i * 10,
                    range_end = ceil10 lo + int i * 10 + 10\<rparr>) [0..<?n]"
  proof (rule map_cong [OF refl])
    fix i assume "i \<in> set [0..<?n]"
    then have "i \<le> ?n" "i + 1 \<le> ?n" by auto
    then show "\<lparr>range_start = ?ts ! i, range_end = ?ts ! (i + 1)\<rparr>
        = \<lparr>range_start = ceil10 lo + int i * 10, range_end = ceil10 lo + int i * 10 + 10\<rparr>"
      by (simp only: nth) simp
  qed
  moreover have "?ts ! ?n = ceil10 hi"
    by (simp only: nth [OF order_refl] nticks_last [OF assms])
  ultimately show ?thesis
    unfolding decadeTicks_eq [OF assms] decadeRanges_def
    by (simp only: len option.case prod.case diff_Suc_1 zero_less_Suc if_True)
qed

lemma d3_min_eq: "d3_min xs = (if xs = [] then None else Some (Min (set xs)))"
  by (cases xs) (simp_all add: d3_min_def Min.set_eq_fold [symmetric] del: set_simps)

lemma d3_max_eq: "d3_max xs = (if xs = [] then None else Some (Max (set xs)))"
  by (cases xs) (simp_all add: d3_max_def Max.set_eq_fold [symmetric] del: set_simps)

lemma xDomain_eq:
  "xDomain data = (if data = [] then None
                   else Some (Min (row_year ` set data), Max (row_year ` set data)))"
  by (simp add: xDomain_def d3_min_eq d3_max_eq)

lemma xDomain_sort_data: "xDomain (sort_data data) = xDomain data"
proof -
  have "sort_data data = [] \<longleftrightarrow> data = []"
    by (metis length_0_conv length_sort sort_data_def)
  then show ?thesis by (simp add: xDomain_eq) (simp add: sort_data_def)
qed

lemma xDomain_bounds:
  assumes "xDomain data = Some (lo, hi)" and "d \<in> set data"
  shows "lo \<le> row_year d" and "row_year d \<le> hi"
  using assms by (auto simp: xDomain_eq split: if_splits)

lemma xDomain_le:
  assumes "xDomain data = Some (lo, hi)"
  shows "lo \<le> hi"
proof -
  from assms obtain d where "d \<in> set data"
    by (cases data) (auto simp: xDomain_eq)
  with xDomain_bounds [OF assms] show ?thesis by force
qed

lemma hover_ranges_eq:
  assumes "xDomain data = Some (lo, hi)"
  shows "hover_ranges (fst (StackedAreaChart data cs))
           = map (\<lambda>i. \<lparr>range_start = ceil10 lo + int i * 10,
                         range_end = ceil10 lo + int i * 10 + 10\<rparr>) [0..<nticks lo hi]
             @ [\<lparr>range_start = ceil10 hi, range_end = hi\<rparr>]"
  using decadeRanges_eq [OF xDomain_le [OF assms]] assms
  by (simp add: StackedAreaChart_def Let_def xDomain_sort_data)

lemma hover_ranges_last:
  assumes "xDomain data = Some (lo, hi)"
  shows "last (hover_ranges (fst (StackedAreaChart data cs)))
           = \<lparr>range_start = ceil10 hi, range_end = hi\<rparr>"
    and "hi \<le> ceil10 hi"
  by (simp_all add: hover_ranges_eq [OF assms] ceil10_props)

lemma ranges_nth:
  assumes "rs = map (\<lambda>i. \<lparr>range_start = s + int i * 10, range_end = s + int i * 10 + 10\<rparr>) [0..<n]
             @ [\<lparr>range_start = s + int n * 10, range_end = hi\<rparr>]"
  shows "length rs = Suc n"
    and "i < n \<Longrightarrow> rs ! i = \<lparr>range_start = s + int i * 10, range_end = s + int i * 10 + 10\<rparr>"
    and "rs ! n = \<lparr>range_start = s + int n * 10, range_end = hi\<rparr>"
  by (simp_all add: assms nth_append)

lemma ranges_set:
  assumes "rs = map (\<lambda>i. \<lparr>range_start = s + int i * 10, range_end = s + int i * 10 + 10\<rparr>) [0..<n]
             @ [\<lparr>range_start = s + int n * 10, range_end = hi\<rparr>]"
  shows "r \<in> set rs \<longleftrightarrow>
           (\<exists>i<n. r = \<lparr>range_start = s + int i * 10, range_end = s + int i * 10 + 10\<rparr>)
           \<or> r = \<lparr>range_start = s + int n * 10, range_end = hi\<rparr>"
  by (auto simp: assms)

lemma bucket_exists:
  fixes x :: real and s :: int
  assumes "of_int s \<le> x" "x < of_int (s + int n * 10)"
  shows "\<exists>i<n. of_int (s + int i * 10) \<le> x \<and> x < of_int (s + int i * 10 + 10)"
proof -
  define k where "k = \<lfloor>(x - of_int s) / 10\<rfloor>"
  have lo: "of_int k \<le> (x - of_int s) / 10" and up: "(x - of_int s) / 10 < of_int k + 1"
    unfolding k_def by linarith+
  have k0: "0 \<le> k" using assms(1) by (simp add: k_def)
  have "of_int k * 10 \<le> x - of_int s" using lo by simp
  then have a: "of_int (s + k * 10) \<le> x" by simp
  have "x - of_int s < (of_int k + 1) * 10" using up by simp
  then have b: "x < of_int (s + k * 10 + 10)" by (simp add: algebra_simps)
  from a assms(2) have "real_of_int (s + k * 10) < of_int (s + int n * 10)" by linarith
  then have "s + k * 10 < s + int n * 10" by (simp only: of_int_less_iff)
  then have "k < int n" by simp
  with k0 have "nat k < n" by simp
  moreover have "int (nat k) = k" using k0 by simp
  ultimately show ?thesis using a b by (intro exI [of _ "nat k"]) simp
qed

lemma bucket_unique:
  fixes x :: real and s :: int
  assumes "of_int (s + int i * 10) \<le> x" "x < of_int (s + int i * 10 + 10)"
    and "of_int (s + int j * 10) \<le> x" "x < of_int (s + int j * 10 + 10)"
  shows "i = j"
proof -
  from assms(1,4) have "real_of_int (s + int i * 10) < of_int (s + int j * 10 + 10)" by linarith
  then have 1: "s + int i * 10 < s + int j * 10 + 10" by (simp only: of_int_less_iff)
  from assms(3,2) have "real_of_int (s + int j * 10) < of_int (s + int i * 10 + 10)" by linarith
  then have 2: "s + int j * 10 < s + int i * 10 + 10" by (simp only: of_int_less_iff)
  from 1 2 show ?thesis by simp
qed






section \<open>Facts about the colour domain\<close>

lemma d3_extent_bounds:
  assumes "Some v \<in> set vs"
  shows "\<exists>lo hi. d3_extent vs = Some (lo, hi) \<and> lo \<le> v \<and> v \<le> hi"
proof -
  from assms have mem: "v \<in> set (List.map_filter id vs)"
    by (force simp: map_filter_def)
  then obtain x ys where xy: "List.map_filter id vs = x # ys"
    by (cases "List.map_filter id vs") auto
  have "fold min ys x = Min (set (x # ys))" "fold max ys x = Max (set (x # ys))"
    by (rule Min.set_eq_fold [symmetric], rule Max.set_eq_fold [symmetric])
  with mem xy have "fold min ys x \<le> v" "v \<le> fold max ys x"
    by (metis List.finite_set Min_le, metis List.finite_set Max_ge)
  then show ?thesis by (simp add: d3_extent_def xy)
qed

lemma colorFor_defined: "colorFor v d \<noteq> None"
proof (cases "fst d = snd d")
  case True
  then have "colorFor v d = Some (1 / 2)" by (simp add: colorFor_def)
  then show ?thesis by simp
next
  case False
  then have "colorFor v d = Some ((v - fst d) / (snd d - fst d))"
    by (simp add: colorFor_def js_div_def)
  then show ?thesis by simp
qed

section \<open>The stacked series (C3)\<close>



section \<open>The category order (C4)\<close>



section \<open>The detail hierarchy of a cause (C5)\<close>

text \<open>
  C5 as stated does not hold for every requested cause. No example record has the cause
  \<open>constructor\<close> or the empty cause, yet the page shows a treemap for both: for
  \<open>constructor\<close> the property read finds the inherited \<open>Object.prototype.constructor\<close>
  and the treemap has no children; the empty string is treated like no selection and the
  aggregate treemap is shown.
\<close>

theorem detail_hierarchy_counterexample:
  "length (filter (\<lambda>r. cause r = ''constructor'') example_records) = 0 \<and>
   Home (getStaticProps example_records) (Some ''constructor'')
     = TreemapOf ''Crash Locations for Cause: constructor'' (HNode ''Root'' None None []) \<and>
   length (filter (\<lambda>r. cause r = []) example_records) = 0 \<and>
   Home (getStaticProps example_records) (Some [])
     = TreemapOf ''Crashes by Cause''
         (HNode ''Root'' None None (treemapDefaultData example_records))"
  by code_simp

text \<open>
  C5, amended. For every record sequence and every requested cause that is a non-empty
  string and not the name of a property inherited from \<open>Object.prototype\<close>, the page shows
  the paragraph "No location data available" exactly when no record has that cause. For
  every requested cause whatsoever, the paragraph is shown only when no record has that
  cause. When \<open>N > 0\<close> records have a non-empty requested cause, the page shows the treemap
  of a hierarchy whose leaf counts sum to exactly \<open>N\<close>, which is also the value of its
  root.
\<close>

theorem detail_hierarchy:
  "(c \<noteq> [] \<and> c \<notin> set object_prototype_names \<longrightarrow>
      (Home (getStaticProps recs) (Some c) = NoLocationData c
         \<longleftrightarrow> length (filter (\<lambda>r. cause r = c) recs) = 0)) \<and>
   (\<forall>c'. Home (getStaticProps recs) (Some c) = NoLocationData c' \<longrightarrow>
      c' = c \<and> length (filter (\<lambda>r. cause r = c) recs) = 0) \<and>
   (c \<noteq> [] \<and> 0 < length (filter (\<lambda>r. cause r = c) recs) \<longrightarrow>
      (\<exists>title h. Home (getStaticProps recs) (Some c) = TreemapOf title h \<and>
         leaf_crashes (Treemap_root h) = int (length (filter (\<lambda>r. cause r = c) recs)) \<and>
         dvalue (Treemap_root h) = int (length (filter (\<lambda>r. cause r = c) recs))))"
proof -
  let ?g = "filter (\<lambda>r. cause r = c) recs"
  let ?p = "getStaticProps recs"
  have lookup: "object_get (props_treemapInteractiveData ?p) c =
      (if ?g \<noteq> [] then Own (locations ?g)
       else if c \<in> set object_prototype_names then Inherited else Undefined)"
    by (simp add: getStaticProps_def object_get_treemapInteractiveData)
  have nf: "Home ?p (Some c) = NoLocationData c \<longleftrightarrow> length ?g = 0"
    if "c \<noteq> []" "c \<notin> set object_prototype_names"
    using that lookup by (simp add: Home_def selected_def)
  have only: "c' = c \<and> length ?g = 0" if "Home ?p (Some c) = NoLocationData c'" for c'
    using that lookup
    by (cases "c = []"; cases "?g = []"; cases "c \<in> set object_prototype_names")
       (simp_all add: Home_def selected_def)
  have found: "\<exists>title h. Home ?p (Some c) = TreemapOf title h \<and>
      leaf_crashes (Treemap_root h) = int (length ?g) \<and> dvalue (Treemap_root h) = int (length ?g)"
    if "c \<noteq> []" "0 < length ?g"
  proof -
    from that have ne: "?g \<noteq> []" by auto
    let ?h = "HNode ''Root'' None None (locations ?g)"
    have home: "Home ?p (Some c) = TreemapOf (''Crash Locations for Cause: '' @ c) ?h"
      using lookup ne that(1) by (simp add: Home_def selected_def treemapData_def)
    have kids: "map hierarchy_sum (locations ?g) \<noteq> []"
      using locations_nonempty [OF ne] by simp
    have "leaf_crashes (hierarchy_sum ?h) = int (length ?g)"
      using kids by (simp add: leaf_crashes_node comp_def locations_sum)
    then have 1: "leaf_crashes (Treemap_root ?h) = int (length ?g)"
      by (simp only: Treemap_root_def leaf_crashes_sort)
    have "dvalue (hierarchy_sum ?h) = int (length ?g)"
      by (simp add: comp_def locations_value crashes_or0_def)
    then have 2: "dvalue (Treemap_root ?h) = int (length ?g)"
      by (simp only: Treemap_root_def dvalue_sort)
    from home 1 2 show ?thesis by blast
  qed
  from nf only found show ?thesis by blast
qed

text \<open>
  The theorem at the example records: two records have cause \<open>B\<close>, none has cause \<open>Z\<close>,
  and \<open>Z\<close> is not an inherited name.
\<close>

theorem detail_hierarchy_witness:
  "''B'' \<noteq> [] \<and> ''Z'' \<noteq> [] \<and> ''Z'' \<notin> set object_prototype_names \<and>
   length (filter (\<lambda>r. cause r = ''B'') example_records) = 2 \<and>
   (\<exists>title h. Home (getStaticProps example_records) (Some ''B'') = TreemapOf title h \<and>
      leaf_crashes (Treemap_root h) = 2 \<and> dvalue (Treemap_root h) = 2) \<and>
   length (filter (\<lambda>r. cause r = ''Z'') example_records) = 0 \<and>
   Home (getStaticProps example_records) (Some ''Z'') = NoLocationData ''Z''"
proof -
  have b: "length (filter (\<lambda>r. cause r = ''B'') example_records) = 2"
    by code_simp
  have z: "length (filter (\<lambda>r. cause r = ''Z'') example_records) = 0"
    by code_simp
  have nb: "''B'' \<noteq> []" and nz: "''Z'' \<noteq> []" by simp_all
  have np: "''Z'' \<notin> set object_prototype_names"
    by code_simp
  from detail_hierarchy [of "''B''" example_records] b nb
  have 1: "\<exists>title h. Home (getStaticProps example_records) (Some ''B'') = TreemapOf title h \<and>
      leaf_crashes (Treemap_root h) = 2 \<and> dvalue (Treemap_root h) = 2"
    by simp
  from detail_hierarchy [of "''Z''" example_records] z nz np
  have 2: "Home (getStaticProps example_records) (Some ''Z'') = NoLocationData ''Z''"
    by blast
  from 1 2 b z nb nz np show ?thesis by blast
qed

section \<open>Tooltip placement (C6)\<close>

text \<open>
  C6. The tooltip sits up-right of the pointer by the margin 10 unless it would overflow:
  when the default left edge plus the tooltip width exceeds the chart width the tooltip
  goes to the left of the pointer, when the default top edge is above 0 it goes below the
  pointer; the horizontal result depends on the horizontal data only and the vertical
  result on the vertical data only. With width 1000 and tooltip width 200, pointer x = 950
  gives the flipped x = 740 (at most 800), and pointer x = 50 keeps x = 60, the default
  offset. The same holds for both components.
\<close>

theorem tooltip_placement:
  "StackedAreaChart_tooltip w e = Treemap_tooltip w e \<and>
   (px e + 10 + tooltipWidth e \<le> w \<longrightarrow> fst (Treemap_tooltip w e) = px e + 10) \<and>
   (px e + 10 + tooltipWidth e > w \<longrightarrow>
      fst (Treemap_tooltip w e) + tooltipWidth e = px e - 10) \<and>
   (0 \<le> py e - tooltipHeight e - 10 \<longrightarrow>
      snd (Treemap_tooltip w e) + tooltipHeight e = py e - 10) \<and>
   (py e - tooltipHeight e - 10 < 0 \<longrightarrow> snd (Treemap_tooltip w e) = py e + 10) \<and>
   fst (Treemap_tooltip w (e\<lparr>py := py', tooltipHeight := h'\<rparr>)) = fst (Treemap_tooltip w e) \<and>
   snd (Treemap_tooltip w' (e\<lparr>px := px', tooltipWidth := tw'\<rparr>)) = snd (Treemap_tooltip w e) \<and>
   (w = 1000 \<and> tooltipWidth e = 200 \<and> px e = 950 \<longrightarrow>
      fst (Treemap_tooltip w e) = 740 \<and> fst (Treemap_tooltip w e) \<le> 800) \<and>
   (w = 1000 \<and> tooltipWidth e = 200 \<and> px e = 50 \<longrightarrow>
      fst (Treemap_tooltip w e) = px e + 10)"
  by (simp add: StackedAreaChart_tooltip_def Treemap_tooltip_def Let_def)

text \<open>
  The theorem at two events in a chart of width 1000 with a 200 by 50 tooltip: near the
  right and top edges both flips happen, in the middle none does.
\<close>

theorem tooltip_placement_witness:
  "StackedAreaChart_tooltip 1000
     \<lparr>px = 950, py = 5, tooltipWidth = 200, tooltipHeight = 50\<rparr> = (740, 15) \<and>
   StackedAreaChart_tooltip 1000
     \<lparr>px = 50, py = 300, tooltipWidth = 200, tooltipHeight = 50\<rparr> = (60, 240)"
  using tooltip_placement [of 1000 "\<lparr>px = 950, py = 5, tooltipWidth = 200, tooltipHeight = 50\<rparr>"]
    tooltip_placement [of 1000 "\<lparr>px = 50, py = 300, tooltipWidth = 200, tooltipHeight = 50\<rparr>"]
  by (simp add: prod_eq_iff)

section \<open>The decade hover ranges (C7)\<close>

text \<open>
  C7 as stated does not hold. For the example records the x-domain is \<open>[1953, 1987]\<close> and
  the hover ranges are \<open>1960-1970\<close>, \<open>1970-1980\<close>, \<open>1980-1990\<close> and \<open>1990-1987\<close>: the
  x-value 1955 lies inside the domain and in no range, not even with both ends counted.
\<close>

theorem decade_ranges_counterexample:
  "xDomain (snd example_chart) = Some (1953, 1987) \<and>
   hover_ranges (fst example_chart)
     = [\<lparr>range_start = 1960, range_end = 1970\<rparr>, \<lparr>range_start = 1970, range_end = 1980\<rparr>,
        \<lparr>range_start = 1980, range_end = 1990\<rparr>, \<lparr>range_start = 1990, range_end = 1987\<rparr>] \<and>
   \<not> (\<exists>r \<in> set (hover_ranges (fst example_chart)). range_start r \<le> 1955 \<and> 1955 \<le> range_end r)"
  by code_simp

text \<open>
  C7, amended. Let \<open>[lo, hi]\<close> be the x-domain of the chart and \<open>ceil10\<close> the next multiple
  of 10 at or above a year. The hover ranges start at multiples of 10, the first one at
  \<open>ceil10 lo\<close>; every range but the last has width 10 and ends where the next one starts.
  Read as half-open intervals \<open>[start, end)\<close> the ranges are pairwise disjoint, and every
  x-value from \<open>ceil10 lo\<close> up to, but excluding, \<open>ceil10 hi\<close> lies in one of them, hence
  in exactly one. No range, even with both ends counted, holds an x-value below
  \<open>ceil10 lo\<close>: the part of the domain before the first decade tick belongs to no range.
\<close>

theorem decade_ranges:
  fixes data :: "yearRow list" and cs :: "string list"
  defines "rs \<equiv> hover_ranges (fst (StackedAreaChart data cs))"
  assumes dom': "xDomain (snd (StackedAreaChart data cs)) = Some (lo, hi)"
  shows "range_start (hd rs) = ceil10 lo \<and>
         lo \<le> ceil10 lo \<and> ceil10 lo < lo + 10 \<and> hi \<le> ceil10 hi \<and> ceil10 hi < hi + 10 \<and>
         (\<forall>r \<in> set rs. range_start r mod 10 = 0) \<and>
         (\<forall>i. Suc i < length rs \<longrightarrow>
            range_end (rs ! i) = range_start (rs ! i) + 10 \<and>
            range_start (rs ! Suc i) = range_end (rs ! i)) \<and>
         (\<forall>x::real. of_int (ceil10 lo) \<le> x \<and> x < of_int (ceil10 hi) \<longrightarrow>
            (\<exists>r \<in> set rs. of_int (range_start r) \<le> x \<and> x < of_int (range_end r))) \<and>
         (\<forall>(x::real) r r'. r \<in> set rs \<and> r' \<in> set rs \<and>
            of_int (range_start r) \<le> x \<and> x < of_int (range_end r) \<and>
            of_int (range_start r') \<le> x \<and> x < of_int (range_end r') \<longrightarrow> r = r') \<and>
         (\<forall>(x::real) r. r \<in> set rs \<and> of_int (range_start r) \<le> x \<and> x \<le> of_int (range_end r)
            \<longrightarrow> of_int (ceil10 lo) \<le> x)"
proof -
  let ?s = "ceil10 lo" and ?n = "nticks lo hi"
  from dom' have dom: "xDomain data = Some (lo, hi)"
    by (simp add: StackedAreaChart_def Let_def xDomain_sort_data)
  have le: "lo \<le> hi" by (rule xDomain_le [OF dom])
  have last: "?s + int ?n * 10 = ceil10 hi" by (rule nticks_last [OF le])
  have rs: "rs = map (\<lambda>i. \<lparr>range_start = ?s + int i * 10, range_end = ?s + int i * 10 + 10\<rparr>)
                   [0..<?n]
                 @ [\<lparr>range_start = ?s + int ?n * 10, range_end = hi\<rparr>]"
    unfolding rs_def hover_ranges_eq [OF dom] last ..
  note nth = ranges_nth [OF rs] and mem = ranges_set [OF rs]
  have hd: "range_start (hd rs) = ?s"
  proof (cases "?n = 0")
    case True
    then show ?thesis by (simp add: rs)
  next
    case False
    then have "0 < ?n" by simp
    moreover have "rs \<noteq> []" using nth(1) by auto
    then have "hd rs = rs ! 0" by (rule hd_conv_nth)
    ultimately show ?thesis using nth(2) [of 0] by simp
  qed
  have aligned: "\<forall>r \<in> set rs. range_start r mod 10 = 0"
    using ceil10_props(1) [of lo] by (auto simp: mem)
  have steps: "\<forall>i. Suc i < length rs \<longrightarrow>
      range_end (rs ! i) = range_start (rs ! i) + 10 \<and>
      range_start (rs ! Suc i) = range_end (rs ! i)"
  proof (intro allI impI)
    fix i assume "Suc i < length rs"
    then have i: "i < ?n" using nth(1) by simp
    then have "Suc i < ?n \<or> Suc i = ?n" by auto
    then have "range_start (rs ! Suc i) = ?s + int (Suc i) * 10"
      using nth(2) [of "Suc i"] nth(3) by auto
    with nth(2) [OF i] show "range_end (rs ! i) = range_start (rs ! i) + 10 \<and>
      range_start (rs ! Suc i) = range_end (rs ! i)" by simp
  qed
  have final_empty: "\<not> (of_int (?s + int ?n * 10) \<le> x \<and> x < of_int hi)" for x :: real
  proof -
    have "hi \<le> ?s + int ?n * 10" unfolding last by (rule ceil10_props)
    then have "real_of_int hi \<le> of_int (?s + int ?n * 10)" by (simp only: of_int_le_iff)
    then show ?thesis by linarith
  qed
  have cover: "\<forall>x::real. of_int ?s \<le> x \<and> x < of_int (ceil10 hi) \<longrightarrow>
      (\<exists>r \<in> set rs. of_int (range_start r) \<le> x \<and> x < of_int (range_end r))"
  proof (intro allI impI)
    fix x :: real assume "of_int ?s \<le> x \<and> x < of_int (ceil10 hi)"
    then have "of_int ?s \<le> x" "x < of_int (?s + int ?n * 10)" by (simp_all only: last)
    from bucket_exists [OF this] obtain i where i: "i < ?n"
      "of_int (?s + int i * 10) \<le> x" "x < of_int (?s + int i * 10 + 10)" by blast
    let ?r = "\<lparr>range_start = ?s + int i * 10, range_end = ?s + int i * 10 + 10\<rparr>"
    have "?r \<in> set rs" using i(1) by (auto simp: mem)
    moreover have "of_int (range_start ?r) \<le> x \<and> x < of_int (range_end ?r)"
      using i(2,3) by simp
    ultimately show "\<exists>r \<in> set rs. of_int (range_start r) \<le> x \<and> x < of_int (range_end r)"
      by blast
  qed
  have disjoint: "\<forall>(x::real) r r'. r \<in> set rs \<and> r' \<in> set rs \<and>
      of_int (range_start r) \<le> x \<and> x < of_int (range_end r) \<and>
      of_int (range_start r') \<le> x \<and> x < of_int (range_end r') \<longrightarrow> r = r'"
  proof (intro allI impI, elim conjE)
    fix x :: real and r r'
    assume r: "r \<in> set rs" "of_int (range_start r) \<le> x" "x < of_int (range_end r)"
      and r': "r' \<in> set rs" "of_int (range_start r') \<le> x" "x < of_int (range_end r')"
    from r final_empty [of x] obtain i where
      i: "r = \<lparr>range_start = ?s + int i * 10, range_end = ?s + int i * 10 + 10\<rparr>"
      by (auto simp: mem)
    from r' final_empty [of x] obtain j where
      j: "r' = \<lparr>range_start = ?s + int j * 10, range_end = ?s + int j * 10 + 10\<rparr>"
      by (auto simp: mem)
    have "i = j"
      using r(2,3) r'(2,3) unfolding i j by (intro bucket_unique [of ?s i x j]) simp_all
    then show "r = r'" by (simp add: i j)
  qed
  have below: "\<forall>(x::real) r. r \<in> set rs \<and> of_int (range_start r) \<le> x \<and> x \<le> of_int (range_end r)
      \<longrightarrow> of_int ?s \<le> x"
  proof (intro allI impI, elim conjE)
    fix x :: real and r
    assume r: "r \<in> set rs" "of_int (range_start r) \<le> x"
    from r(1) obtain i where "range_start r = ?s + int i * 10" by (auto simp: mem)
    then have "?s \<le> range_start r" by simp
    then have "real_of_int ?s \<le> of_int (range_start r)" by (simp only: of_int_le_iff)
    with r(2) show "of_int ?s \<le> x" by linarith
  qed
  from hd ceil10_props [of lo] ceil10_props [of hi] aligned steps cover disjoint below
  show ?thesis by blast
qed

text \<open>
  The theorem at the example records: the ranges begin at 1960 and the x-value 1965.5 is
  in one of them.
\<close>

theorem decade_ranges_witness:
  "xDomain (snd example_chart) = Some (1953, 1987) \<and>
   range_start (hd (hover_ranges (fst example_chart))) = 1960 \<and>
   (\<exists>r \<in> set (hover_ranges (fst example_chart)).
      of_int (range_start r) \<le> (1965.5::real) \<and> (1965.5::real) < of_int (range_end r))"
proof -
  have d: "xDomain (snd example_chart) = Some (1953, 1987)"
    by code_simp
  have c: "ceil10 1953 = 1960" "ceil10 1987 = 1990"
    by (simp_all add: ceil10_def)
  note t = decade_ranges [OF d [unfolded example_chart_def], folded example_chart_def]
  from t have "range_start (hd (hover_ranges (fst example_chart))) = ceil10 1953"
    by blast
  moreover from t have "\<forall>x::real. of_int (ceil10 1953) \<le> x \<and> x < of_int (ceil10 1987) \<longrightarrow>
      (\<exists>r \<in> set (hover_ranges (fst example_chart)).
         of_int (range_start r) \<le> x \<and> x < of_int (range_end r))"
    by blast
  ultimately have "range_start (hd (hover_ranges (fst example_chart))) = 1960"
    and "of_int 1960 \<le> (1965.5::real) \<and> (1965.5::real) < of_int 1990 \<longrightarrow>
      (\<exists>r \<in> set (hover_ranges (fst example_chart)).
        of_int (range_start r) \<le> (1965.5::real) \<and> (1965.5::real) < of_int (range_end r))"
    unfolding c by blast+
  with d show ?thesis by simp
qed

section \<open>The colour position (C8)\<close>

text \<open>
  C8. \<open>colorFor\<close> always yields a number: on a degenerate domain \<open>[m, m]\<close> it is the
  midpoint 0.5 for every value, on a domain with \<open>min < max\<close> it is the linear
  interpolation \<open>(v - min) / (max - min)\<close>. For every leaf of a treemap that has a
  fatality value, the domain taken from the leaves exists and encloses the value, and the
  leaf's fill position is a number between 0 and 1.
\<close>

theorem colorFor_position:
  "colorFor v (m, m) = Some (1 / 2) \<and>
   colorFor v d \<noteq> None \<and>
   (fst d < snd d \<longrightarrow> colorFor v d = Some ((v - fst d) / (snd d - fst d))) \<and>
   (leaf \<in> set (leaves rt) \<and> node_fatalities (ddata leaf) = Some f \<longrightarrow>
      (\<exists>lo hi p. fatalityExtent rt = Some (lo, hi) \<and> lo \<le> f \<and> f \<le> hi \<and>
         Treemap_fill rt leaf = colorFor (of_int f) (of_int lo, of_int hi) \<and>
         Treemap_fill rt leaf = Some p \<and> 0 \<le> p \<and> p \<le> 1))"
proof (intro conjI impI)
  show "colorFor v (m, m) = Some (1 / 2)" by (simp add: colorFor_def)
  show "colorFor v d \<noteq> None" by (rule colorFor_defined)
  show "colorFor v d = Some ((v - fst d) / (snd d - fst d))" if "fst d < snd d"
    using that by (simp add: colorFor_def js_div_def)
next
  assume a: "leaf \<in> set (leaves rt) \<and> node_fatalities (ddata leaf) = Some f"
  then have "Some f \<in> set (map (\<lambda>l. node_fatalities (ddata l)) (leaves rt))"
    by force
  from d3_extent_bounds [OF this] obtain lo hi
    where e: "fatalityExtent rt = Some (lo, hi)" and b: "lo \<le> f" "f \<le> hi"
    by (auto simp: fatalityExtent_def)
  have fill: "Treemap_fill rt leaf = colorFor (of_int f) (of_int lo, of_int hi)"
    using a e by (simp add: Treemap_fill_def)
  have "\<exists>p. colorFor (of_int f) (of_int lo, of_int hi) = Some p \<and> 0 \<le> p \<and> p \<le> 1"
  proof (cases "lo = hi")
    case True
    have "colorFor (of_int f) (of_int lo, of_int hi) = Some (1 / 2)"
      using True by (simp add: colorFor_def)
    moreover have "(0::real) \<le> 1 / 2" "(1::real) / 2 \<le> 1" by simp_all
    ultimately show ?thesis by blast
  next
    case False
    with b have "lo < hi" by simp
    then have "colorFor (of_int f) (of_int lo, of_int hi)
        = Some ((of_int f - of_int lo) / (of_int hi - of_int lo))"
      by (simp add: colorFor_def js_div_def)
    moreover have "0 \<le> (real_of_int f - of_int lo) / (of_int hi - of_int lo)"
      using b \<open>lo < hi\<close> by simp
    moreover have "(real_of_int f - of_int lo) / (of_int hi - of_int lo) \<le> 1"
      using b \<open>lo < hi\<close> by simp
    ultimately show ?thesis by blast
  qed
  with e b fill show "\<exists>lo hi p. fatalityExtent rt = Some (lo, hi) \<and> lo \<le> f \<and> f \<le> hi \<and>
         Treemap_fill rt leaf = colorFor (of_int f) (of_int lo, of_int hi) \<and>
         Treemap_fill rt leaf = Some p \<and> 0 \<le> p \<and> p \<le> 1"
    by metis
qed

text \<open>
  The theorem at the aggregate treemap of the example records: the first leaf has 5
  fatalities, the domain is \<open>[3, 5]\<close>, its position is 1.
\<close>

theorem colorFor_position_witness:
  "hd (leaves example_root) \<in> set (leaves example_root) \<and>
   node_fatalities (ddata (hd (leaves example_root))) = Some 5 \<and>
   fatalityExtent example_root = Some (3, 5) \<and>
   colorFor 4 (4, 4) = Some (1 / 2) \<and>
   fst (3::real, 5::real) < snd (3::real, 5::real) \<and>
   colorFor 4 (3, 5) = Some ((4 - 3) / (5 - 3)) \<and>
   (\<exists>lo hi p. fatalityExtent example_root = Some (lo, hi) \<and> lo \<le> 5 \<and> 5 \<le> hi \<and>
      Treemap_fill example_root (hd (leaves example_root))
        = colorFor (of_int 5) (of_int lo, of_int hi) \<and>
      Treemap_fill example_root (hd (leaves example_root)) = Some p \<and> 0 \<le> p \<and> p \<le> 1)"
proof -
  have l: "hd (leaves example_root) \<in> set (leaves example_root)"
    by code_simp
  have f: "node_fatalities (ddata (hd (leaves example_root))) = Some 5"
    by code_simp
  have e: "fatalityExtent example_root = Some (3, 5)"
    by code_simp
  have o: "fst (3::real, 5::real) < snd (3::real, 5::real)"
    by simp
  note t = colorFor_position [of 4 4 "(3, 5)" "hd (leaves example_root)" example_root 5]
  from t have a: "colorFor 4 (4, 4) = Some (1 / 2)"
    by blast
  from t o have "colorFor 4 (3, 5)
      = Some ((4 - fst (3::real, 5::real)) / (snd (3::real, 5::real) - fst (3::real, 5::real)))"
    by blast
  then have b: "colorFor 4 (3, 5) = Some ((4 - 3) / (5 - 3))"
    by (simp only: fst_conv snd_conv)
  from t l f have c: "\<exists>lo hi p. fatalityExtent example_root = Some (lo, hi) \<and> lo \<le> 5 \<and> 5 \<le> hi \<and>
      Treemap_fill example_root (hd (leaves example_root))
        = colorFor (of_int 5) (of_int lo, of_int hi) \<and>
      Treemap_fill example_root (hd (leaves example_root)) = Some p \<and> 0 \<le> p \<and> p \<le> 1"
    by blast
  from l f e a o b c show ?thesis by blast
qed

section \<open>The order of the children (C9)\<close>

text \<open>
  C9 as stated does not hold. The three causes of the tie example each have one crash; in
  the aggregate treemap the children of the root come in the order \<open>B\<close>, \<open>A\<close>, \<open>C\<close> in
  which the causes occur in the input, which is not the order by name.
\<close>

theorem children_order_counterexample:
  "map (\<lambda>c. (name (ddata c), dvalue c)) (dchildren example_ties_root)
     = [(''B'', 1), (''A'', 1), (''C'', 1)] \<and>
   \<not> value_then_name (dchildren example_ties_root)"
  by code_simp

text \<open>
  C9, amended. Before layout the children of every hierarchy node are sorted by value
  descending, and children of equal value keep the order they have in the input data: the
  nodes of the sorted hierarchy are the sorted nodes of the summed input hierarchy, the
  children of each are in descending order of value, for every value the children of that
  value are the input's children of that value in the input's order, and sorting changes
  neither a node's datum nor its value. The result is a function of the input alone.
\<close>

theorem children_order:
  "set (descendants (Treemap_root data)) = hierarchy_sort ` set (descendants (hierarchy_sum data)) \<and>
   (\<forall>n \<in> set (descendants (Treemap_root data)).
      sorted_wrt (\<lambda>a b. dvalue b \<le> dvalue a) (dchildren n)) \<and>
   (\<forall>t v. filter (\<lambda>c. dvalue c = v) (dchildren (hierarchy_sort t))
            = map hierarchy_sort (filter (\<lambda>c. dvalue c = v) (dchildren t))) \<and>
   (\<forall>t. ddata (hierarchy_sort t) = ddata t \<and> dvalue (hierarchy_sort t) = dvalue t)"
proof -
  have 1: "set (descendants (Treemap_root data))
      = hierarchy_sort ` set (descendants (hierarchy_sum data))"
    by (simp only: Treemap_root_def descendants_sort)
  have 2: "\<forall>n \<in> set (descendants (Treemap_root data)).
      sorted_wrt (\<lambda>a b. dvalue b \<le> dvalue a) (dchildren n)"
    unfolding 1 by (auto intro: children_sorted)
  show ?thesis using 1 2 children_stable by simp
qed

text \<open>
  The theorem at the aggregate treemap of the example records: the children of the root
  have the values 2, 2, 1, with \<open>B\<close> before \<open>A\<close> as in the input.
\<close>

theorem children_order_witness:
  "example_root \<in> set (descendants example_root) \<and>
   sorted_wrt (\<lambda>a b. dvalue b \<le> dvalue a) (dchildren example_root) \<and>
   map (\<lambda>c. (name (ddata c), dvalue c)) (dchildren example_root) = [(''B'', 2), (''A'', 2), (''C'', 1)]"
proof -
  have m: "example_root \<in> set (descendants example_root)"
    by (subst set_descendants) simp
  have v: "map (\<lambda>c. (name (ddata c), dvalue c)) (dchildren example_root)
      = [(''B'', 2), (''A'', 2), (''C'', 1)]"
    by code_simp
  from children_order [of "snd (treemapData (getStaticProps example_records) None)"] m v
  show ?thesis unfolding example_root_def by blast
qed

section \<open>Records on a shared decade boundary (C10)\<close>



end
